theory Spec2Isabelle
  imports Main
begin

section \<open>Singleton.py: objects, heap and outcomes\<close>

text \<open>
  Objects live in a heap, a list indexed by address; a handle is an address, and two
  handles are identical (Python's \<open>is\<close>) exactly when the addresses are equal.
  An attribute that has not been assigned yet is \<open>None\<close> in the model.
\<close>

type_synonym addr = nat

datatype obj =
    DatabaseConnectionObj (connection_string: "string option") (connected: "bool option")
  | LoggerObj (logs: "string list option")

type_synonym heap = "obj list"

datatype pyval = PyNone | PyBool bool | PyInt int | PyStr string | PyRef addr

text \<open>The actual arguments of a call: positional ones and keyword ones.\<close>

type_synonym args = "pyval list \<times> (string \<times> pyval) list"

datatype error = TypeError | AttributeError | KeyError | UserError string

text \<open>
  A call returns a value, raises, or blocks for ever on a lock that nobody releases
  (\<open>threading.Lock\<close> is not re-entrant).
\<close>

datatype 'a result = Return 'a | Raise error | Block

definition no_args :: args where
  "no_args = ([], [])"

definition heap_get :: "heap \<Rightarrow> addr \<Rightarrow> obj option" where
  "heap_get h a = (if a < length h then Some (h ! a) else None)"

text \<open>\<open>object.__new__(cls)\<close>: a fresh object without attributes, at a fresh address.\<close>

definition object_new :: "obj \<Rightarrow> heap \<Rightarrow> addr \<times> heap" where
  "object_new blank h = (length h, h @ [blank])"

section \<open>Singleton via \<open>__new__\<close>: DatabaseConnection\<close>

text \<open>
  The class attributes \<open>_instance\<close>, \<open>_lock\<close> (is it held) and \<open>_initialized\<close>,
  together with the heap.
\<close>

record db_state =
  cls_instance :: "addr option"
  cls_lock :: bool
  cls_initialized :: bool
  heap :: heap

text \<open>
  \<open>__new__(cls)\<close>, lines 21 to 26: check, lock, check again, allocate and store, unlock,
  and return \<open>cls._instance\<close> (a reference, or Python's \<open>None\<close>).
\<close>

definition DatabaseConnection_new :: "'z db_state_scheme \<Rightarrow> addr option result \<times> 'z db_state_scheme" where
  "DatabaseConnection_new s =
     (if cls_instance s = None then
        (if cls_lock s then (Block, s)
         else
           let s1 = s\<lparr>cls_lock := True\<rparr>;
               s2 = (if cls_instance s1 = None then
                       (let (a, h) = object_new (DatabaseConnectionObj None None) (heap s1)
                        in s1\<lparr>cls_instance := Some a, heap := h\<rparr>)
                     else s1);
               s3 = s2\<lparr>cls_lock := False\<rparr>
           in (Return (cls_instance s3), s3))
      else (Return (cls_instance s), s))"

text \<open>\<open>__init__(self)\<close>, lines 28 to 32.\<close>

definition DatabaseConnection_init :: "addr \<Rightarrow> 'z db_state_scheme \<Rightarrow> 'z db_state_scheme" where
  "DatabaseConnection_init self s =
     (if \<not> cls_initialized s then
        s\<lparr>heap := (heap s)[self := DatabaseConnectionObj (Some ''localhost:5432'') (Some True)],
          cls_initialized := True\<rparr>
      else s)"

definition is_DatabaseConnection :: "heap \<Rightarrow> addr \<Rightarrow> bool" where
  "is_DatabaseConnection h a =
     (case heap_get h a of Some (DatabaseConnectionObj _ _) \<Rightarrow> True | _ \<Rightarrow> False)"

text \<open>
  The call \<open>DatabaseConnection(*args, **kwargs)\<close>, as \<open>type.__call__\<close> runs it:
  \<open>__new__(cls)\<close> takes no argument besides the class, so any argument is a TypeError
  before the body runs; \<open>__init__\<close> runs on what \<open>__new__\<close> returned when that is an
  instance of the class; the call returns that object.
\<close>

definition DatabaseConnection :: "args \<Rightarrow> 'z db_state_scheme \<Rightarrow> addr option result \<times> 'z db_state_scheme" where
  "DatabaseConnection as s =
     (if as \<noteq> no_args then (Raise TypeError, s)
      else
        (case DatabaseConnection_new s of
           (Return (Some a), s1) \<Rightarrow>
             (if is_DatabaseConnection (heap s1) a
              then (Return (Some a), DatabaseConnection_init a s1)
              else (Return (Some a), s1))
         | (r, s1) \<Rightarrow> (r, s1)))"

text \<open>\<open>execute_query(self, query)\<close>, lines 34 and 35.\<close>

definition execute_query :: "addr \<Rightarrow> string \<Rightarrow> 'z db_state_scheme \<Rightarrow> string result \<times> 'z db_state_scheme" where
  "execute_query self query s = (Return (''Executing query: '' @ query), s)"

definition str_bool :: "bool \<Rightarrow> string" where
  "str_bool b = (if b then ''True'' else ''False'')"

text \<open>\<open>get_connection_info(self)\<close>, lines 37 and 38: reading a missing attribute raises.\<close>

definition get_connection_info :: "addr \<Rightarrow> 'z db_state_scheme \<Rightarrow> string result \<times> 'z db_state_scheme" where
  "get_connection_info self s =
     (case heap_get (heap s) self of
        Some (DatabaseConnectionObj (Some cs) (Some c)) \<Rightarrow>
          (Return (''Connected to: '' @ cs @ '', Status: '' @ str_bool c), s)
      | _ \<Rightarrow> (Raise AttributeError, s))"

section \<open>Singleton via decorator\<close>

text \<open>
  Each application \<open>singleton(cls)\<close> creates a closure with its own dictionary
  \<open>instances\<close> and its own lock. A class is named by a string, and the closure made for
  a class is found under its name (a class is decorated once). A class is called through
  its constructor, which works on the heap and returns the new object or raises.
\<close>

type_synonym cls = string

type_synonym ctor = "args \<Rightarrow> heap \<Rightarrow> addr result \<times> heap"

record closure =
  instances :: "cls \<rightharpoonup> addr"
  lock :: bool

record program = db_state +
  closures :: "cls \<Rightarrow> closure"

definition set_lock :: "cls \<Rightarrow> bool \<Rightarrow> program \<Rightarrow> program" where
  "set_lock c b s = s\<lparr>closures := (closures s)(c := (closures s c)\<lparr>lock := b\<rparr>)\<rparr>"

definition store_instance :: "cls \<Rightarrow> addr \<Rightarrow> program \<Rightarrow> program" where
  "store_instance c a s =
     s\<lparr>closures := (closures s)(c := (closures s c)\<lparr>instances := (instances (closures s c))(c \<mapsto> a)\<rparr>)\<rparr>"

text \<open>Line 56, \<open>return instances[cls]\<close>: a missing key raises KeyError.\<close>

definition return_instance :: "cls \<Rightarrow> program \<Rightarrow> addr result \<times> program" where
  "return_instance c s =
     (case instances (closures s c) c of None \<Rightarrow> (Raise KeyError, s) | Some a \<Rightarrow> (Return a, s))"

text \<open>
  \<open>get_instance(*args, **kwargs)\<close>, lines 51 to 56, in the closure of class \<open>c\<close> with
  constructor \<open>k\<close>. The \<open>with\<close> statement releases the lock when the constructor raises.
\<close>

definition get_instance :: "cls \<Rightarrow> ctor \<Rightarrow> args \<Rightarrow> program \<Rightarrow> addr result \<times> program" where
  "get_instance c k as s =
     (if instances (closures s c) c = None then
        (if lock (closures s c) then (Block, s)
         else
           let s1 = set_lock c True s in
           if instances (closures s1 c) c = None then
             (case k as (heap s1) of
                (Return a, h) \<Rightarrow>
                  return_instance c (set_lock c False (store_instance c a (s1\<lparr>heap := h\<rparr>)))
              | (Raise e, h) \<Rightarrow> (Raise e, set_lock c False (s1\<lparr>heap := h\<rparr>))
              | (Block, h) \<Rightarrow> (Block, s1\<lparr>heap := h\<rparr>))
           else return_instance c (set_lock c False s1))
      else return_instance c s)"

text \<open>\<open>singleton(cls)\<close> returns the closure's \<open>get_instance\<close>.\<close>

definition singleton :: "cls \<Rightarrow> ctor \<Rightarrow> args \<Rightarrow> program \<Rightarrow> addr result \<times> program" where
  "singleton c k = get_instance c k"

subsection \<open>The decorated class Logger\<close>

text \<open>
  Calling the class itself: \<open>object.__new__\<close> allocates (it accepts extra arguments,
  since the class defines \<open>__init__\<close>), then \<open>__init__(self)\<close> refuses any argument with
  a TypeError and otherwise sets \<open>self.logs = []\<close>. An object whose \<open>__init__\<close>
  raised stays in the heap, referenced by nobody.
\<close>

definition Logger_class :: ctor where
  "Logger_class as h =
     (let (a, h1) = object_new (LoggerObj None) h
      in if as \<noteq> no_args then (Raise TypeError, h1)
         else (Return a, h1[a := LoggerObj (Some [])]))"

definition Logger :: "args \<Rightarrow> program \<Rightarrow> addr result \<times> program" where
  "Logger = singleton ''Logger'' Logger_class"

text \<open>\<open>log(self, message)\<close>, lines 70 and 71: \<open>self.logs.append(message)\<close>.\<close>

definition log :: "addr \<Rightarrow> string \<Rightarrow> program \<Rightarrow> unit result \<times> program" where
  "log self message s =
     (case heap_get (heap s) self of
        Some (LoggerObj (Some l)) \<Rightarrow>
          (Return (), s\<lparr>heap := (heap s)[self := LoggerObj (Some (l @ [message]))]\<rparr>)
      | _ \<Rightarrow> (Raise AttributeError, s))"

text \<open>\<open>get_logs(self)\<close>, lines 73 and 74.\<close>

definition get_logs :: "addr \<Rightarrow> program \<Rightarrow> string list result \<times> program" where
  "get_logs self s =
     (case heap_get (heap s) self of
        Some (LoggerObj (Some l)) \<Rightarrow> (Return l, s)
      | _ \<Rightarrow> (Raise AttributeError, s))"

section \<open>The module as a whole\<close>

text \<open>The state right after the module is loaded: both cells empty, no lock held.\<close>

definition initial :: program where
  "initial = \<lparr>cls_instance = None, cls_lock = False, cls_initialized = False, heap = [],
     closures = (\<lambda>_. \<lparr>instances = Map.empty, lock = False\<rparr>)\<rparr>"

text \<open>\<open>n\<close> calls \<open>DatabaseConnection()\<close> one after the other, with the handles they return.\<close>

fun repeat_calls :: "nat \<Rightarrow> 'z db_state_scheme \<Rightarrow> addr option result list \<times> 'z db_state_scheme" where
  "repeat_calls 0 s = ([], s)"
| "repeat_calls (Suc n) s =
     (case DatabaseConnection no_args s of (r, s1) \<Rightarrow>
        (case repeat_calls n s1 of (rs, s2) \<Rightarrow> (r # rs, s2)))"

text \<open>
  A client that, for every message, asks \<open>Logger(...)\<close> for a handle (with whatever
  arguments) and logs the message through the handle it got.
\<close>

fun log_via :: "(args \<times> string) list \<Rightarrow> program \<Rightarrow> program" where
  "log_via [] s = s"
| "log_via ((as, m) # rest) s =
     (case Logger as s of
        (Return h, s1) \<Rightarrow> log_via rest (snd (log h m s1))
      | (_, s1) \<Rightarrow> log_via rest s1)"

text \<open>Any sequence of calls into the module; \<open>classes\<close> gives each decorated class its constructor.\<close>

datatype op =
    Call_DatabaseConnection args
  | Call_decorated cls args
  | Call_execute_query addr string
  | Call_get_connection_info addr
  | Call_log addr string
  | Call_get_logs addr

fun exec_op :: "(cls \<Rightarrow> ctor) \<Rightarrow> op \<Rightarrow> program \<Rightarrow> program" where
  "exec_op classes (Call_DatabaseConnection as) s = snd (DatabaseConnection as s)"
| "exec_op classes (Call_decorated c as) s = snd (singleton c (classes c) as s)"
| "exec_op classes (Call_execute_query a q) s = snd (execute_query a q s)"
| "exec_op classes (Call_get_connection_info a) s = snd (get_connection_info a s)"
| "exec_op classes (Call_log a m) s = snd (log a m s)"
| "exec_op classes (Call_get_logs a) s = snd (get_logs a s)"

fun exec_ops :: "(cls \<Rightarrow> ctor) \<Rightarrow> op list \<Rightarrow> program \<Rightarrow> program" where
  "exec_ops classes [] s = s"
| "exec_ops classes (x # xs) s = exec_ops classes xs (exec_op classes x s)"

text \<open>The state after the demonstration block has made both singletons.\<close>

definition loaded :: program where
  "loaded = exec_ops (\<lambda>_. Logger_class)
     [Call_DatabaseConnection no_args, Call_decorated ''Logger'' no_args] initial"

section \<open>Racing callers of \<open>DatabaseConnection()\<close>\<close>

text \<open>
  Several threads call \<open>DatabaseConnection()\<close> at the same time. Each thread stands at a
  program point of \<open>__new__\<close> (lines 21 to 26) or of \<open>__init__\<close> (lines 28 to 32), and
  one step of a thread is one read or one write of a class attribute or of an attribute of
  the instance, or one operation on the lock; another thread may run between any two steps.
  The two assignments of lines 30 and 31 write one attribute each.
\<close>

definition set_connection_string :: "string \<Rightarrow> obj \<Rightarrow> obj" where
  "set_connection_string v ob =
     (case ob of DatabaseConnectionObj _ c \<Rightarrow> DatabaseConnectionObj (Some v) c | _ \<Rightarrow> ob)"

definition set_connected :: "bool \<Rightarrow> obj \<Rightarrow> obj" where
  "set_connected v ob =
     (case ob of DatabaseConnectionObj cs _ \<Rightarrow> DatabaseConnectionObj cs (Some v) | _ \<Rightarrow> ob)"

definition update_object :: "addr \<Rightarrow> (obj \<Rightarrow> obj) \<Rightarrow> heap \<Rightarrow> heap" where
  "update_object a f h = (if a < length h then h[a := f (h ! a)] else h)"

text \<open>
  The program points, named after what the thread does next: the test of line 22, the
  \<open>with cls._lock\<close> of line 23, the test of line 24, the \<open>super().__new__(cls)\<close> and the
  assignment to \<open>cls._instance\<close> of line 25, the end of the \<open>with\<close> block, the
  \<open>return cls._instance\<close> of line 26, then the test of line 29 and the assignments of
  lines 30, 31 and 32 on the object that \<open>__new__\<close> returned. \<open>Done r\<close>: the call has
  returned \<open>r\<close>.
\<close>

datatype pc =
    New_check
  | New_acquire
  | New_recheck
  | New_alloc
  | New_store addr
  | New_release
  | New_return
  | Init_check addr
  | Init_connection_string addr
  | Init_connected addr
  | Init_initialized addr
  | Done "addr option"

text \<open>
  One step of a thread on the shared class attributes and heap. \<open>None\<close>: the thread
  cannot move, because it waits for the lock or has returned.
\<close>

fun step :: "pc \<Rightarrow> db_state \<Rightarrow> (pc \<times> db_state) option" where
  "step New_check s = Some (if cls_instance s = None then New_acquire else New_return, s)"
| "step New_acquire s = (if cls_lock s then None else Some (New_recheck, s\<lparr>cls_lock := True\<rparr>))"
| "step New_recheck s = Some (if cls_instance s = None then New_alloc else New_release, s)"
| "step New_alloc s =
     (case object_new (DatabaseConnectionObj None None) (heap s) of
        (a, h) \<Rightarrow> Some (New_store a, s\<lparr>heap := h\<rparr>))"
| "step (New_store a) s = Some (New_release, s\<lparr>cls_instance := Some a\<rparr>)"
| "step New_release s = Some (New_return, s\<lparr>cls_lock := False\<rparr>)"
| "step New_return s =
     (case cls_instance s of
        None \<Rightarrow> Some (Done None, s)
      | Some a \<Rightarrow> Some (if is_DatabaseConnection (heap s) a then Init_check a else Done (Some a), s))"
| "step (Init_check a) s =
     Some (if \<not> cls_initialized s then Init_connection_string a else Done (Some a), s)"
| "step (Init_connection_string a) s =
     Some (Init_connected a, s\<lparr>heap := update_object a (set_connection_string ''localhost:5432'') (heap s)\<rparr>)"
| "step (Init_connected a) s =
     Some (Init_initialized a, s\<lparr>heap := update_object a (set_connected True) (heap s)\<rparr>)"
| "step (Init_initialized a) s = Some (Done (Some a), s\<lparr>cls_initialized := True\<rparr>)"
| "step (Done r) s = None"

text \<open>
  A configuration: the shared state, the program point of every thread, and the log of
  the steps made so far (which thread, at which program point).
\<close>

record conf =
  shared :: db_state
  threads :: "pc list"
  executed :: "(nat \<times> pc) list"

text \<open>The scheduler picks thread \<open>i\<close>; a thread that cannot move leaves everything as it is.\<close>

definition sched_step :: "nat \<Rightarrow> conf \<Rightarrow> conf" where
  "sched_step i c =
     (if i < length (threads c) then
        (case step (threads c ! i) (shared c) of
           None \<Rightarrow> c
         | Some (p, s) \<Rightarrow>
             \<lparr>shared = s, threads = (threads c)[i := p],
              executed = executed c @ [(i, threads c ! i)]\<rparr>)
      else c)"

fun run :: "nat list \<Rightarrow> conf \<Rightarrow> conf" where
  "run [] c = c"
| "run (i # sched) c = run sched (sched_step i c)"

text \<open>\<open>n\<close> threads, each about to call \<open>DatabaseConnection()\<close>.\<close>

definition start :: "nat \<Rightarrow> db_state \<Rightarrow> conf" where
  "start n s = \<lparr>shared = s, threads = replicate n New_check, executed = []\<rparr>"

text \<open>How many times a program point has been executed, by any thread.\<close>

definition times_executed :: "pc \<Rightarrow> conf \<Rightarrow> nat" where
  "times_executed p c = length (filter (\<lambda>e. snd e = p) (executed c))"

text \<open>The class right after the module is loaded.\<close>

definition empty_db :: db_state where
  "empty_db = \<lparr>cls_instance = None, cls_lock = False, cls_initialized = False, heap = []\<rparr>"

text \<open>
  Two schedules. In the first, thread 0 runs \<open>__new__\<close> and the test of line 29 (eight
  steps), then thread 1 runs the fast path of \<open>__new__\<close> and the test of line 29 (three
  steps), then each of them runs lines 30 to 32. The second does the same with \<open>n\<close>
  threads: thread 0, then the threads 1 to \<open>n - 1\<close> up to the test of line 29, then
  every thread through lines 30 to 32.
\<close>

definition racing_schedule :: "nat list" where
  "racing_schedule = replicate 8 0 @ replicate 3 1 @ replicate 3 0 @ replicate 3 1"

definition all_racing_schedule :: "nat \<Rightarrow> nat list" where
  "all_racing_schedule n =
     replicate 8 0 @ concat (map (replicate 3) [1..<n]) @ concat (map (replicate 3) [0..<n])"

subsection \<open>What every reachable configuration satisfies\<close>

text \<open>The program points inside the \<open>with cls._lock\<close> block.\<close>

fun crit :: "pc \<Rightarrow> bool" where
  "crit New_recheck = True"
| "crit New_alloc = True"
| "crit (New_store a) = True"
| "crit New_release = True"
| "crit p = False"

definition initialised :: obj where
  "initialised = DatabaseConnectionObj (Some ''localhost:5432'') (Some True)"

text \<open>
  What a thread at a program point knows, \<open>a0\<close> being the address the one allocation
  gets.
\<close>

fun local_ok :: "addr \<Rightarrow> db_state \<Rightarrow> pc \<Rightarrow> bool" where
  "local_ok a0 s New_check = True"
| "local_ok a0 s New_acquire = True"
| "local_ok a0 s New_recheck = (cls_instance s = None \<longrightarrow> length (heap s) = a0)"
| "local_ok a0 s New_alloc = (cls_instance s = None \<and> length (heap s) = a0)"
| "local_ok a0 s (New_store a) = (a = a0 \<and> cls_instance s = None \<and> length (heap s) = Suc a0)"
| "local_ok a0 s New_release = (cls_instance s = Some a0)"
| "local_ok a0 s New_return = (cls_instance s = Some a0)"
| "local_ok a0 s (Init_check a) = (a = a0 \<and> cls_instance s = Some a0)"
| "local_ok a0 s (Init_connection_string a) = (a = a0 \<and> cls_instance s = Some a0)"
| "local_ok a0 s (Init_connected a) =
     (a = a0 \<and> cls_instance s = Some a0 \<and> connection_string (heap s ! a0) = Some ''localhost:5432'')"
| "local_ok a0 s (Init_initialized a) =
     (a = a0 \<and> cls_instance s = Some a0 \<and> heap s ! a0 = initialised)"
| "local_ok a0 s (Done r) = (r = Some a0 \<and> cls_instance s = Some a0 \<and> cls_initialized s)"

definition partly_initialised :: "obj \<Rightarrow> bool" where
  "partly_initialised ob \<longleftrightarrow>
     (\<exists>cs cn. ob = DatabaseConnectionObj cs cn
        \<and> (cs = None \<or> cs = Some ''localhost:5432'') \<and> (cn = None \<or> cn = Some True))"

text \<open>At most one thread is inside the \<open>with\<close> block, and the lock is held exactly then.\<close>

definition mutex :: "pc list \<Rightarrow> bool \<Rightarrow> bool" where
  "mutex ts l \<longleftrightarrow>
     (\<forall>i<length ts. \<forall>j<length ts. crit (ts ! i) \<and> crit (ts ! j) \<longrightarrow> i = j)
     \<and> (\<forall>i<length ts. crit (ts ! i) \<longrightarrow> l)
     \<and> (l \<longrightarrow> (\<exists>i<length ts. crit (ts ! i)))"

text \<open>
  The shared state, \<open>h0\<close> being the heap at the start and \<open>allocs\<close> the number of
  allocations so far.
\<close>

definition shared_ok :: "heap \<Rightarrow> db_state \<Rightarrow> nat \<Rightarrow> bool" where
  "shared_ok h0 s allocs \<longleftrightarrow>
     (cls_instance s = None \<or> cls_instance s = Some (length h0))
     \<and> (\<not> cls_lock s \<and> cls_instance s = None \<longrightarrow> length (heap s) = length h0)
     \<and> (cls_instance s = Some (length h0) \<longrightarrow> length (heap s) = Suc (length h0))
     \<and> allocs + length h0 = length (heap s)
     \<and> length (heap s) \<le> Suc (length h0)
     \<and> take (length h0) (heap s) = h0
     \<and> (length (heap s) = Suc (length h0) \<longrightarrow> partly_initialised (heap s ! length h0))
     \<and> (cls_initialized s \<longrightarrow>
           cls_instance s = Some (length h0) \<and> heap s ! length h0 = initialised)"

definition locals_ok :: "addr \<Rightarrow> db_state \<Rightarrow> pc list \<Rightarrow> bool" where
  "locals_ok a0 s ts \<longleftrightarrow> (\<forall>i<length ts. local_ok a0 s (ts ! i))"

definition db_inv :: "heap \<Rightarrow> conf \<Rightarrow> bool" where
  "db_inv h0 c \<longleftrightarrow>
     mutex (threads c) (cls_lock (shared c))
     \<and> shared_ok h0 (shared c) (times_executed New_alloc c)
     \<and> locals_ok (length h0) (shared c) (threads c)"

text \<open>The number of steps a thread at a program point can still make, at most.\<close>

fun remaining :: "pc \<Rightarrow> nat" where
  "remaining New_check = 11"
| "remaining New_acquire = 10"
| "remaining New_recheck = 9"
| "remaining New_alloc = 8"
| "remaining (New_store a) = 7"
| "remaining New_release = 6"
| "remaining New_return = 5"
| "remaining (Init_check a) = 4"
| "remaining (Init_connection_string a) = 3"
| "remaining (Init_connected a) = 2"
| "remaining (Init_initialized a) = 1"
| "remaining (Done r) = 0"

section \<open>Properties\<close>

subsection \<open>Single calls\<close>

lemma DatabaseConnection_empty:
  assumes "cls_instance s = None" "\<not> cls_lock s" "\<not> cls_initialized s"
  shows "DatabaseConnection no_args s =
    (Return (Some (length (heap s))),
     s\<lparr>cls_instance := Some (length (heap s)),
       heap := heap s @ [DatabaseConnectionObj (Some ''localhost:5432'') (Some True)],
       cls_initialized := True\<rparr>)"
  using assms
  by (simp add: DatabaseConnection_def DatabaseConnection_new_def object_new_def Let_def
      is_DatabaseConnection_def heap_get_def DatabaseConnection_init_def)

lemma DatabaseConnection_occupied:
  assumes "cls_instance s = Some a"
  shows "fst (DatabaseConnection as s) = (if as = no_args then Return (Some a) else Raise TypeError)"
    and "cls_instance (snd (DatabaseConnection as s)) = Some a"
  using assms
  by (auto simp add: DatabaseConnection_def DatabaseConnection_new_def 
      DatabaseConnection_init_def split: obj.splits option.splits)

lemma DatabaseConnection_occupied_init:
  assumes "cls_instance s = Some a" "cls_initialized s"
  shows "DatabaseConnection no_args s = (Return (Some a), s)"
  using assms
  by (auto simp add: DatabaseConnection_def DatabaseConnection_new_def 
      DatabaseConnection_init_def split: obj.splits option.splits)

lemma lock_False_idem: "\<not> lock cl \<Longrightarrow> cl\<lparr>lock := False\<rparr> = cl"
  by (cases cl) simp

lemma set_lock_release:
  "\<not> lock (closures s c) \<Longrightarrow> set_lock c False (set_lock c True s) = s"
  by (simp add: set_lock_def lock_False_idem)

lemma set_lock_heap: "set_lock c b (s\<lparr>heap := h\<rparr>) = (set_lock c b s)\<lparr>heap := h\<rparr>"
  by (simp add: set_lock_def)

lemma get_instance_empty_Return:
  assumes "instances (closures s c) c = None" "\<not> lock (closures s c)" "k as (heap s) = (Return a, h)"
  shows "get_instance c k as s = (Return a, store_instance c a (s\<lparr>heap := h\<rparr>))"
  using assms
  by (cases "closures s c")
     (simp add: get_instance_def Let_def set_lock_def store_instance_def return_instance_def)

lemma get_instance_empty_Raise:
  assumes "instances (closures s c) c = None" "\<not> lock (closures s c)" "k as (heap s) = (Raise e, h)"
  shows "get_instance c k as s = (Raise e, s\<lparr>heap := h\<rparr>)"
proof -
  have "set_lock c False ((set_lock c True s)\<lparr>heap := h\<rparr>) = s\<lparr>heap := h\<rparr>"
    using assms(2) set_lock_release[of "s\<lparr>heap := h\<rparr>" c] by (simp add: set_lock_heap)
  moreover have "instances (closures (set_lock c True s) c) c = None" "heap (set_lock c True s) = heap s"
    using assms(1) by (simp_all add: set_lock_def)
  ultimately show ?thesis
    using assms by (simp add: get_instance_def Let_def)
qed

lemma get_instance_occupied:
  assumes "instances (closures s c) c = Some a"
  shows "get_instance c k as s = (Return a, s)"
  using assms by (simp add: get_instance_def return_instance_def)

lemma store_instance_simps:
  "instances (closures (store_instance c a s) c) c = Some a"
  "lock (closures (store_instance c a s) c) = lock (closures s c)"
  "heap (store_instance c a s) = heap s"
  "c' \<noteq> c \<Longrightarrow> closures (store_instance c a s) c' = closures s c'"
  by (simp_all add: store_instance_def)

lemma loaded_eq:
  "loaded = \<lparr>cls_instance = Some 0, cls_lock = False, cls_initialized = True,
     heap = [DatabaseConnectionObj (Some ''localhost:5432'') (Some True), LoggerObj (Some [])],
     closures = (\<lambda>_. \<lparr>instances = Map.empty, lock = False\<rparr>)
       (''Logger'' := \<lparr>instances = [''Logger'' \<mapsto> 1], lock = False\<rparr>)\<rparr>"
  by (simp add: loaded_def initial_def DatabaseConnection_def DatabaseConnection_new_def
      object_new_def is_DatabaseConnection_def heap_get_def DatabaseConnection_init_def
      singleton_def get_instance_def set_lock_def store_instance_def return_instance_def
      Logger_class_def Let_def)

subsection \<open>Racing callers of \<open>DatabaseConnection()\<close>\<close>

text \<open>
  Every step of every thread keeps the three parts of \<open>db_inv\<close>; the lemmas below
  say how each part changes when one thread moves, then there is one lemma for each program
  point.
\<close>

lemma db_inv_start:
  "cls_instance s = None \<Longrightarrow> \<not> cls_lock s \<Longrightarrow> \<not> cls_initialized s \<Longrightarrow>
   db_inv (heap s) (start n s)"
  by (simp add: db_inv_def mutex_def shared_ok_def locals_ok_def start_def times_executed_def)

lemma times_executed_step:
  "times_executed q \<lparr>shared = s, threads = ts, executed = executed c @ [(i, p)]\<rparr>
     = times_executed q c + (if p = q then 1 else 0)"
  by (simp add: times_executed_def)

lemma mutex_keep:
  assumes "mutex ts l" "k < length ts" "crit p' = crit (ts ! k)"
  shows "mutex (ts[k := p']) l"
proof -
  have "\<exists>i<length ts. crit (ts[k := p'] ! i)" if "l"
  proof -
    from that assms(1) obtain i where i: "i < length ts" "crit (ts ! i)"
      by (auto simp add: mutex_def)
    show ?thesis
    proof (cases "i = k")
      case True
      with i assms show ?thesis by (auto simp add: nth_list_update)
    next
      case False
      with i assms show ?thesis by (auto simp add: nth_list_update)
    qed
  qed
  then show ?thesis
    using assms by (auto simp add: mutex_def nth_list_update split: if_splits)
qed

lemma mutex_enter:
  "mutex ts False \<Longrightarrow> k < length ts \<Longrightarrow> crit p' \<Longrightarrow> mutex (ts[k := p']) True"
  by (auto simp add: mutex_def nth_list_update split: if_splits)

lemma mutex_leave:
  "mutex ts l \<Longrightarrow> k < length ts \<Longrightarrow> crit (ts ! k) \<Longrightarrow> \<not> crit p' \<Longrightarrow> mutex (ts[k := p']) False"
  by (auto simp add: mutex_def nth_list_update split: if_splits)

lemma mutex_others:
  "mutex ts l \<Longrightarrow> k < length ts \<Longrightarrow> crit (ts ! k) \<Longrightarrow> j < length ts \<Longrightarrow> j \<noteq> k \<Longrightarrow> \<not> crit (ts ! j)"
  by (auto simp add: mutex_def)

lemma mutex_locked:
  "mutex ts l \<Longrightarrow> k < length ts \<Longrightarrow> crit (ts ! k) \<Longrightarrow> l"
  by (auto simp add: mutex_def)

lemma locals_ok_update:
  assumes "locals_ok a0 s ts" "k < length ts" "local_ok a0 s' p'"
    and "\<And>j. j < length ts \<Longrightarrow> j \<noteq> k \<Longrightarrow> local_ok a0 s (ts ! j) \<Longrightarrow> local_ok a0 s' (ts ! j)"
  shows "locals_ok a0 s' (ts[k := p'])"
  using assms by (auto simp add: locals_ok_def nth_list_update)

lemma locals_okD: "locals_ok a0 s ts \<Longrightarrow> k < length ts \<Longrightarrow> local_ok a0 s (ts ! k)"
  by (simp add: locals_ok_def)

lemma local_ok_lock [simp]: "local_ok a0 (s\<lparr>cls_lock := b\<rparr>) p = local_ok a0 s p"
  by (cases p) simp_all

lemma local_ok_initialized: "local_ok a0 s p \<Longrightarrow> local_ok a0 (s\<lparr>cls_initialized := True\<rparr>) p"
  by (cases p) simp_all

lemma local_ok_outside:
  "cls_instance s = None \<Longrightarrow> \<not> crit p \<Longrightarrow> local_ok a0 s p \<Longrightarrow> local_ok a0 s' p"
  by (cases p) simp_all

lemma update_object_length [simp]: "length (update_object a f h) = length h"
  by (simp add: update_object_def)

lemma update_object_nth [simp]: "a < length h \<Longrightarrow> update_object a f h ! a = f (h ! a)"
  by (simp add: update_object_def)

lemma update_object_take [simp]: "n \<le> a \<Longrightarrow> take n (update_object a f h) = take n h"
  by (simp add: update_object_def)

lemma partly_set_connection_string:
  "partly_initialised ob \<Longrightarrow> partly_initialised (set_connection_string ''localhost:5432'' ob)"
  by (auto simp add: partly_initialised_def set_connection_string_def)

lemma partly_set_connected:
  "partly_initialised ob \<Longrightarrow> partly_initialised (set_connected True ob)"
  by (auto simp add: partly_initialised_def set_connected_def)

lemma local_ok_set_connection_string:
  "local_ok a0 s p \<Longrightarrow> length (heap s) = Suc a0 \<Longrightarrow> partly_initialised (heap s ! a0) \<Longrightarrow>
   local_ok a0 (s\<lparr>heap := update_object a0 (set_connection_string ''localhost:5432'') (heap s)\<rparr>) p"
  by (cases p) (auto simp add: partly_initialised_def set_connection_string_def initialised_def)

lemma local_ok_set_connected:
  "local_ok a0 s p \<Longrightarrow> length (heap s) = Suc a0 \<Longrightarrow> partly_initialised (heap s ! a0) \<Longrightarrow>
   local_ok a0 (s\<lparr>heap := update_object a0 (set_connected True) (heap s)\<rparr>) p"
  by (cases p) (auto simp add: partly_initialised_def set_connected_def initialised_def)

lemma set_initialised [simp]:
  "set_connection_string ''localhost:5432'' initialised = initialised"
  "set_connected True initialised = initialised"
  by (simp_all add: set_connection_string_def set_connected_def initialised_def)

lemma partly_is_DatabaseConnection:
  "length h = Suc a \<Longrightarrow> partly_initialised (h ! a) \<Longrightarrow> is_DatabaseConnection h a"
  by (auto simp add: partly_initialised_def is_DatabaseConnection_def heap_get_def)

lemma db_inv_step_New_alloc:
  assumes inv: "db_inv h0 c" and i: "i < length (threads c)" and p: "threads c ! i = New_alloc"
  shows "db_inv h0 (sched_step i c)"
proof -
  let ?s = "shared c" and ?ts = "threads c"
  let ?s' = "?s\<lparr>heap := heap ?s @ [DatabaseConnectionObj None None]\<rparr>"
  from inv have m: "mutex ?ts (cls_lock ?s)"
    and g: "shared_ok h0 ?s (times_executed New_alloc c)"
    and l: "locals_ok (length h0) ?s ?ts"
    by (simp_all add: db_inv_def)
  from locals_okD [OF l i] p have here: "cls_instance ?s = None" "length (heap ?s) = length h0"
    by simp_all
  have locked: "cls_lock ?s" using mutex_locked [OF m i] p by simp
  have eq: "sched_step i c = \<lparr>shared = ?s', threads = ?ts[i := New_store (length h0)],
      executed = executed c @ [(i, New_alloc)]\<rparr>"
    using i p here by (simp add: sched_step_def object_new_def)
  have 1: "mutex (?ts[i := New_store (length h0)]) (cls_lock ?s')"
    using mutex_keep [OF m i, of "New_store (length h0)"] p by simp
  have 2: "shared_ok h0 ?s' (times_executed New_alloc c + 1)"
    using g here locked by (simp add: shared_ok_def partly_initialised_def)
  have 3: "locals_ok (length h0) ?s' (?ts[i := New_store (length h0)])"
  proof (rule locals_ok_update [OF l i])
    show "local_ok (length h0) ?s' (New_store (length h0))" using here by simp
  next
    fix j assume j: "j < length ?ts" "j \<noteq> i" "local_ok (length h0) ?s (?ts ! j)"
    have "\<not> crit (?ts ! j)" using mutex_others [OF m i _ j(1) j(2)] p by simp
    from here(1) this j(3) show "local_ok (length h0) ?s' (?ts ! j)" by (rule local_ok_outside)
  qed
  show ?thesis using 1 2 3 by (simp add: eq db_inv_def times_executed_step)
qed

lemma db_inv_step_New_store:
  assumes inv: "db_inv h0 c" and i: "i < length (threads c)" and p: "threads c ! i = New_store a"
  shows "db_inv h0 (sched_step i c)"
proof -
  let ?s = "shared c" and ?ts = "threads c"
  let ?s' = "?s\<lparr>cls_instance := Some a\<rparr>"
  from inv have m: "mutex ?ts (cls_lock ?s)"
    and g: "shared_ok h0 ?s (times_executed New_alloc c)"
    and l: "locals_ok (length h0) ?s ?ts"
    by (simp_all add: db_inv_def)
  from locals_okD [OF l i] p have here: "a = length h0" "cls_instance ?s = None"
    "length (heap ?s) = Suc (length h0)"
    by simp_all
  have eq: "sched_step i c = \<lparr>shared = ?s', threads = ?ts[i := New_release],
      executed = executed c @ [(i, New_store a)]\<rparr>"
    using i p by (simp add: sched_step_def)
  have 1: "mutex (?ts[i := New_release]) (cls_lock ?s')"
    using mutex_keep [OF m i, of New_release] p by simp
  have 2: "shared_ok h0 ?s' (times_executed New_alloc c)"
    using g here by (simp add: shared_ok_def)
  have 3: "locals_ok (length h0) ?s' (?ts[i := New_release])"
  proof (rule locals_ok_update [OF l i])
    show "local_ok (length h0) ?s' New_release" using here by simp
  next
    fix j assume j: "j < length ?ts" "j \<noteq> i" "local_ok (length h0) ?s (?ts ! j)"
    have "\<not> crit (?ts ! j)" using mutex_others [OF m i _ j(1) j(2)] p by simp
    from here(2) this j(3) show "local_ok (length h0) ?s' (?ts ! j)" by (rule local_ok_outside)
  qed
  show ?thesis using 1 2 3 by (simp add: eq db_inv_def times_executed_step)
qed



lemma db_inv_step_New_check:
  assumes inv: "db_inv h0 c" and i: "i < length (threads c)" and p: "threads c ! i = New_check"
  shows "db_inv h0 (sched_step i c)"
proof -
  let ?s = "shared c" and ?ts = "threads c"
  from inv have m: "mutex ?ts (cls_lock ?s)"
    and g: "shared_ok h0 ?s (times_executed New_alloc c)"
    and l: "locals_ok (length h0) ?s ?ts"
    by (simp_all add: db_inv_def)
  let ?p' = "if cls_instance ?s = None then New_acquire else New_return"
  have eq: "sched_step i c = \<lparr>shared = ?s, threads = ?ts[i := ?p'],
      executed = executed c @ [(i, New_check)]\<rparr>"
    using i p by (simp add: sched_step_def)
  have 1: "mutex (?ts[i := ?p']) (cls_lock ?s)"
    using mutex_keep [OF m i, of ?p'] p by simp
  have 3: "locals_ok (length h0) ?s (?ts[i := ?p'])"
  proof (rule locals_ok_update [OF l i])
    show "local_ok (length h0) ?s ?p'" using g by (auto simp add: shared_ok_def)
  qed
  show ?thesis using 1 g 3 by (simp add: eq db_inv_def times_executed_step)
qed

lemma db_inv_step_New_acquire:
  assumes inv: "db_inv h0 c" and i: "i < length (threads c)" and p: "threads c ! i = New_acquire"
  shows "db_inv h0 (sched_step i c)"
proof -
  let ?s = "shared c" and ?ts = "threads c"
  from inv have m: "mutex ?ts (cls_lock ?s)"
    and g: "shared_ok h0 ?s (times_executed New_alloc c)"
    and l: "locals_ok (length h0) ?s ?ts"
    by (simp_all add: db_inv_def)
  show ?thesis
  proof (cases "cls_lock ?s")
    case True
    then have "sched_step i c = c" using i p by (simp add: sched_step_def)
    then show ?thesis using inv by simp
  next
    case False
    let ?s' = "?s\<lparr>cls_lock := True\<rparr>"
    have eq: "sched_step i c = \<lparr>shared = ?s', threads = ?ts[i := New_recheck],
        executed = executed c @ [(i, New_acquire)]\<rparr>"
      using i p False by (simp add: sched_step_def)
    have 1: "mutex (?ts[i := New_recheck]) (cls_lock ?s')"
      using mutex_enter [of ?ts i New_recheck] m i False by simp
    have 2: "shared_ok h0 ?s' (times_executed New_alloc c)"
      using g by (simp add: shared_ok_def)
    have 3: "locals_ok (length h0) ?s' (?ts[i := New_recheck])"
    proof (rule locals_ok_update [OF l i])
      show "local_ok (length h0) ?s' New_recheck" using g False by (simp add: shared_ok_def)
    qed simp
    show ?thesis using 1 2 3 by (simp add: eq db_inv_def times_executed_step)
  qed
qed

lemma db_inv_step_New_recheck:
  assumes inv: "db_inv h0 c" and i: "i < length (threads c)" and p: "threads c ! i = New_recheck"
  shows "db_inv h0 (sched_step i c)"
proof -
  let ?s = "shared c" and ?ts = "threads c"
  from inv have m: "mutex ?ts (cls_lock ?s)"
    and g: "shared_ok h0 ?s (times_executed New_alloc c)"
    and l: "locals_ok (length h0) ?s ?ts"
    by (simp_all add: db_inv_def)
  let ?p' = "if cls_instance ?s = None then New_alloc else New_release"
  from locals_okD [OF l i] p have here: "cls_instance ?s = None \<longrightarrow> length (heap ?s) = length h0"
    by simp
  have eq: "sched_step i c = \<lparr>shared = ?s, threads = ?ts[i := ?p'],
      executed = executed c @ [(i, New_recheck)]\<rparr>"
    using i p by (simp add: sched_step_def)
  have 1: "mutex (?ts[i := ?p']) (cls_lock ?s)"
    using mutex_keep [OF m i, of ?p'] p by simp
  have 3: "locals_ok (length h0) ?s (?ts[i := ?p'])"
  proof (rule locals_ok_update [OF l i])
    show "local_ok (length h0) ?s ?p'" using g here by (auto simp add: shared_ok_def)
  qed
  show ?thesis using 1 g 3 by (simp add: eq db_inv_def times_executed_step)
qed

lemma db_inv_step_New_release:
  assumes inv: "db_inv h0 c" and i: "i < length (threads c)" and p: "threads c ! i = New_release"
  shows "db_inv h0 (sched_step i c)"
proof -
  let ?s = "shared c" and ?ts = "threads c"
  from inv have m: "mutex ?ts (cls_lock ?s)"
    and g: "shared_ok h0 ?s (times_executed New_alloc c)"
    and l: "locals_ok (length h0) ?s ?ts"
    by (simp_all add: db_inv_def)
  let ?s' = "?s\<lparr>cls_lock := False\<rparr>"
  from locals_okD [OF l i] p have here: "cls_instance ?s = Some (length h0)"
    by simp
  have eq: "sched_step i c = \<lparr>shared = ?s', threads = ?ts[i := New_return],
      executed = executed c @ [(i, New_release)]\<rparr>"
    using i p by (simp add: sched_step_def)
  have 1: "mutex (?ts[i := New_return]) (cls_lock ?s')"
    using mutex_leave [OF m i, of New_return] p by simp
  have 2: "shared_ok h0 ?s' (times_executed New_alloc c)"
    using g here by (simp add: shared_ok_def)
  have 3: "locals_ok (length h0) ?s' (?ts[i := New_return])"
  proof (rule locals_ok_update [OF l i])
    show "local_ok (length h0) ?s' New_return" using here by simp
  qed simp
  show ?thesis using 1 2 3 by (simp add: eq db_inv_def times_executed_step)
qed

lemma db_inv_step_New_return:
  assumes inv: "db_inv h0 c" and i: "i < length (threads c)" and p: "threads c ! i = New_return"
  shows "db_inv h0 (sched_step i c)"
proof -
  let ?s = "shared c" and ?ts = "threads c"
  from inv have m: "mutex ?ts (cls_lock ?s)"
    and g: "shared_ok h0 ?s (times_executed New_alloc c)"
    and l: "locals_ok (length h0) ?s ?ts"
    by (simp_all add: db_inv_def)
  from locals_okD [OF l i] p have here: "cls_instance ?s = Some (length h0)"
    by simp
  have isdb: "is_DatabaseConnection (heap ?s) (length h0)"
    using g here by (simp add: shared_ok_def partly_is_DatabaseConnection)
  have eq: "sched_step i c = \<lparr>shared = ?s, threads = ?ts[i := Init_check (length h0)],
      executed = executed c @ [(i, New_return)]\<rparr>"
    using i p here isdb by (simp add: sched_step_def)
  have 1: "mutex (?ts[i := Init_check (length h0)]) (cls_lock ?s)"
    using mutex_keep [OF m i, of "Init_check (length h0)"] p by simp
  have 3: "locals_ok (length h0) ?s (?ts[i := Init_check (length h0)])"
  proof (rule locals_ok_update [OF l i])
    show "local_ok (length h0) ?s (Init_check (length h0))" using here by simp
  qed
  show ?thesis using 1 g 3 by (simp add: eq db_inv_def times_executed_step)
qed

lemma db_inv_step_Init_check:
  assumes inv: "db_inv h0 c" and i: "i < length (threads c)" and p: "threads c ! i = Init_check a"
  shows "db_inv h0 (sched_step i c)"
proof -
  let ?s = "shared c" and ?ts = "threads c"
  from inv have m: "mutex ?ts (cls_lock ?s)"
    and g: "shared_ok h0 ?s (times_executed New_alloc c)"
    and l: "locals_ok (length h0) ?s ?ts"
    by (simp_all add: db_inv_def)
  let ?p' = "if \<not> cls_initialized ?s then Init_connection_string a else Done (Some a)"
  from locals_okD [OF l i] p have here: "a = length h0" "cls_instance ?s = Some (length h0)"
    by simp_all
  have eq: "sched_step i c = \<lparr>shared = ?s, threads = ?ts[i := ?p'],
      executed = executed c @ [(i, Init_check a)]\<rparr>"
    using i p by (simp add: sched_step_def)
  have 1: "mutex (?ts[i := ?p']) (cls_lock ?s)"
    using mutex_keep [OF m i, of ?p'] p by simp
  have 3: "locals_ok (length h0) ?s (?ts[i := ?p'])"
  proof (rule locals_ok_update [OF l i])
    show "local_ok (length h0) ?s ?p'" using here by simp
  qed
  show ?thesis using 1 g 3 by (simp add: eq db_inv_def times_executed_step)
qed

lemma db_inv_step_Init_connection_string:
  assumes inv: "db_inv h0 c" and i: "i < length (threads c)" and p: "threads c ! i = Init_connection_string a"
  shows "db_inv h0 (sched_step i c)"
proof -
  let ?s = "shared c" and ?ts = "threads c"
  from inv have m: "mutex ?ts (cls_lock ?s)"
    and g: "shared_ok h0 ?s (times_executed New_alloc c)"
    and l: "locals_ok (length h0) ?s ?ts"
    by (simp_all add: db_inv_def)
  let ?s' = "?s\<lparr>heap := update_object (length h0) (set_connection_string ''localhost:5432'') (heap ?s)\<rparr>"
  from locals_okD [OF l i] p have here: "a = length h0" "cls_instance ?s = Some (length h0)"
    by simp_all
  from g here have len: "length (heap ?s) = Suc (length h0)"
    and part: "partly_initialised (heap ?s ! length h0)"
    by (simp_all add: shared_ok_def)
  have eq: "sched_step i c = \<lparr>shared = ?s', threads = ?ts[i := Init_connected a],
      executed = executed c @ [(i, Init_connection_string a)]\<rparr>"
    using i p here by (simp add: sched_step_def)
  have 1: "mutex (?ts[i := Init_connected a]) (cls_lock ?s')"
    using mutex_keep [OF m i, of "Init_connected a"] p by simp
  have 2: "shared_ok h0 ?s' (times_executed New_alloc c)"
    using g here len part
    by (auto simp add: shared_ok_def partly_set_connection_string)
  have 3: "locals_ok (length h0) ?s' (?ts[i := Init_connected a])"
  proof (rule locals_ok_update [OF l i])
    show "local_ok (length h0) ?s' (Init_connected a)"
      using here len part by (auto simp add: partly_initialised_def set_connection_string_def)
  next
    fix j assume "local_ok (length h0) ?s (?ts ! j)"
    then show "local_ok (length h0) ?s' (?ts ! j)"
      using len part by (rule local_ok_set_connection_string)
  qed
  show ?thesis using 1 2 3 by (simp add: eq db_inv_def times_executed_step)
qed

lemma db_inv_step_Init_connected:
  assumes inv: "db_inv h0 c" and i: "i < length (threads c)" and p: "threads c ! i = Init_connected a"
  shows "db_inv h0 (sched_step i c)"
proof -
  let ?s = "shared c" and ?ts = "threads c"
  from inv have m: "mutex ?ts (cls_lock ?s)"
    and g: "shared_ok h0 ?s (times_executed New_alloc c)"
    and l: "locals_ok (length h0) ?s ?ts"
    by (simp_all add: db_inv_def)
  let ?s' = "?s\<lparr>heap := update_object (length h0) (set_connected True) (heap ?s)\<rparr>"
  from locals_okD [OF l i] p have here: "a = length h0" "cls_instance ?s = Some (length h0)"
    "connection_string (heap ?s ! length h0) = Some ''localhost:5432''"
    by simp_all
  from g here have len: "length (heap ?s) = Suc (length h0)"
    and part: "partly_initialised (heap ?s ! length h0)"
    by (simp_all add: shared_ok_def)
  have eq: "sched_step i c = \<lparr>shared = ?s', threads = ?ts[i := Init_initialized a],
      executed = executed c @ [(i, Init_connected a)]\<rparr>"
    using i p here by (simp add: sched_step_def)
  have 1: "mutex (?ts[i := Init_initialized a]) (cls_lock ?s')"
    using mutex_keep [OF m i, of "Init_initialized a"] p by simp
  have 2: "shared_ok h0 ?s' (times_executed New_alloc c)"
    using g here len part
    by (auto simp add: shared_ok_def partly_set_connected)
  have 3: "locals_ok (length h0) ?s' (?ts[i := Init_initialized a])"
  proof (rule locals_ok_update [OF l i])
    show "local_ok (length h0) ?s' (Init_initialized a)"
      using here len part by (auto simp add: partly_initialised_def set_connected_def initialised_def)
  next
    fix j assume "local_ok (length h0) ?s (?ts ! j)"
    then show "local_ok (length h0) ?s' (?ts ! j)"
      using len part by (rule local_ok_set_connected)
  qed
  show ?thesis using 1 2 3 by (simp add: eq db_inv_def times_executed_step)
qed

lemma db_inv_step_Init_initialized:
  assumes inv: "db_inv h0 c" and i: "i < length (threads c)" and p: "threads c ! i = Init_initialized a"
  shows "db_inv h0 (sched_step i c)"
proof -
  let ?s = "shared c" and ?ts = "threads c"
  from inv have m: "mutex ?ts (cls_lock ?s)"
    and g: "shared_ok h0 ?s (times_executed New_alloc c)"
    and l: "locals_ok (length h0) ?s ?ts"
    by (simp_all add: db_inv_def)
  let ?s' = "?s\<lparr>cls_initialized := True\<rparr>"
  from locals_okD [OF l i] p have here: "a = length h0" "cls_instance ?s = Some (length h0)"
    "heap ?s ! length h0 = initialised"
    by simp_all
  have eq: "sched_step i c = \<lparr>shared = ?s', threads = ?ts[i := Done (Some a)],
      executed = executed c @ [(i, Init_initialized a)]\<rparr>"
    using i p by (simp add: sched_step_def)
  have 1: "mutex (?ts[i := Done (Some a)]) (cls_lock ?s')"
    using mutex_keep [OF m i, of "Done (Some a)"] p by simp
  have 2: "shared_ok h0 ?s' (times_executed New_alloc c)"
    using g here by (simp add: shared_ok_def)
  have 3: "locals_ok (length h0) ?s' (?ts[i := Done (Some a)])"
  proof (rule locals_ok_update [OF l i])
    show "local_ok (length h0) ?s' (Done (Some a))" using here by simp
  next
    fix j assume "local_ok (length h0) ?s (?ts ! j)"
    then show "local_ok (length h0) ?s' (?ts ! j)" by (rule local_ok_initialized)
  qed
  show ?thesis using 1 2 3 by (simp add: eq db_inv_def times_executed_step)
qed

lemma db_inv_step:
  assumes "db_inv h0 c"
  shows "db_inv h0 (sched_step i c)"
proof (cases "i < length (threads c)")
  case False
  then show ?thesis using assms by (simp add: sched_step_def)
next
  case True
  show ?thesis
  proof (cases "threads c ! i")
    case (Done r)
    then have "sched_step i c = c" using True by (simp add: sched_step_def)
    then show ?thesis using assms by simp
  qed (use assms True in \<open>simp_all add: db_inv_step_New_check db_inv_step_New_acquire
      db_inv_step_New_recheck db_inv_step_New_alloc db_inv_step_New_store db_inv_step_New_release
      db_inv_step_New_return db_inv_step_Init_check db_inv_step_Init_connection_string
      db_inv_step_Init_connected db_inv_step_Init_initialized\<close>)
qed

lemma db_inv_run: "db_inv h0 c \<Longrightarrow> db_inv h0 (run sched c)"
  by (induction sched arbitrary: c) (simp_all add: db_inv_step)

lemma length_threads_sched_step [simp]: "length (threads (sched_step i c)) = length (threads c)"
  by (simp add: sched_step_def split: option.splits prod.splits)

lemma length_threads_run [simp]: "length (threads (run sched c)) = length (threads c)"
  by (induction sched arbitrary: c) simp_all

lemma racing_callers_safe:
  assumes "cls_instance s = None" "\<not> cls_lock s" "\<not> cls_initialized s"
  shows "times_executed New_alloc (run sched (start n s)) \<le> 1"
    and "i < n \<Longrightarrow> threads (run sched (start n s)) ! i = Done r \<Longrightarrow>
           r = Some (length (heap s))
           \<and> times_executed New_alloc (run sched (start n s)) = 1
           \<and> cls_instance (shared (run sched (start n s))) = Some (length (heap s))
           \<and> heap_get (heap (shared (run sched (start n s)))) (length (heap s))
               = Some (DatabaseConnectionObj (Some ''localhost:5432'') (Some True))
           \<and> take (length (heap s)) (heap (shared (run sched (start n s)))) = heap s"
proof -
  let ?c = "run sched (start n s)"
  have inv: "db_inv (heap s) ?c"
    using assms by (intro db_inv_run db_inv_start)
  then have g: "shared_ok (heap s) (shared ?c) (times_executed New_alloc ?c)"
    and l: "locals_ok (length (heap s)) (shared ?c) (threads ?c)"
    by (simp_all add: db_inv_def)
  show "times_executed New_alloc ?c \<le> 1"
    using g by (auto simp add: shared_ok_def)
  assume i: "i < n" and d: "threads ?c ! i = Done r"
  have "i < length (threads ?c)" using i by (simp add: start_def)
  from locals_okD [OF l this] d
  have "r = Some (length (heap s))" "cls_instance (shared ?c) = Some (length (heap s))"
    "cls_initialized (shared ?c)"
    by simp_all
  with g show "r = Some (length (heap s))
           \<and> times_executed New_alloc ?c = 1
           \<and> cls_instance (shared ?c) = Some (length (heap s))
           \<and> heap_get (heap (shared ?c)) (length (heap s))
               = Some (DatabaseConnectionObj (Some ''localhost:5432'') (Some True))
           \<and> take (length (heap s)) (heap (shared ?c)) = heap s"
    by (auto simp add: shared_ok_def heap_get_def initialised_def)
qed

lemma step_remaining: "step p s = Some (p', s') \<Longrightarrow> remaining p' < remaining p"
  by (cases p) (auto split: if_splits option.splits simp add: object_new_def)

lemma sum_list_update_less:
  "k < length ts \<Longrightarrow> f p' < f (ts ! k) \<Longrightarrow>
   Suc (sum_list (map f (ts[k := p']))) \<le> sum_list (map f ts)"
proof (induction ts arbitrary: k)
  case Nil
  then show ?case by simp
next
  case (Cons t ts)
  then show ?case by (cases k) auto
qed

lemma executed_bound_step:
  "length (executed (sched_step i c)) + sum_list (map remaining (threads (sched_step i c)))
     \<le> length (executed c) + sum_list (map remaining (threads c))"
proof (cases "i < length (threads c) \<and> step (threads c ! i) (shared c) \<noteq> None")
  case False
  then have "sched_step i c = c"
    by (cases "step (threads c ! i) (shared c)") (auto simp add: sched_step_def)
  then show ?thesis by simp
next
  case True
  then obtain p' s' where st: "step (threads c ! i) (shared c) = Some (p', s')" by auto
  have "Suc (sum_list (map remaining ((threads c)[i := p']))) \<le> sum_list (map remaining (threads c))"
    using True step_remaining [OF st] by (intro sum_list_update_less) simp_all
  then show ?thesis using True st by (simp add: sched_step_def)
qed

lemma executed_bound_run:
  "length (executed (run sched c)) + sum_list (map remaining (threads (run sched c)))
     \<le> length (executed c) + sum_list (map remaining (threads c))"
proof (induction sched arbitrary: c)
  case Nil
  show ?case by simp
next
  case (Cons i sched)
  show ?case using Cons.IH [of "sched_step i c"] executed_bound_step [of i c] by simp
qed

lemma racing_callers_bounded:
  "length (executed (run sched (start n s))) \<le> 11 * n"
proof -
  have "sum_list (map remaining (replicate n New_check)) = 11 * n"
    by (induction n) simp_all
  then show ?thesis
    using executed_bound_run [of sched "start n s"] by (simp add: start_def)
qed

lemma racing_callers_progress:
  assumes "cls_instance s = None" "\<not> cls_lock s" "\<not> cls_initialized s"
    and "i < n" "\<forall>r. threads (run sched (start n s)) ! i \<noteq> Done r"
  shows "\<exists>j<n. step (threads (run sched (start n s)) ! j) (shared (run sched (start n s))) \<noteq> None"
proof -
  let ?c = "run sched (start n s)"
  have n: "length (threads ?c) = n" by (simp add: start_def)
  have inv: "db_inv (heap s) ?c"
    using assms(1-3) by (intro db_inv_run db_inv_start)
  then have m: "mutex (threads ?c) (cls_lock (shared ?c))" by (simp add: db_inv_def)
  show ?thesis
  proof (cases "cls_lock (shared ?c)")
    case True
    with m obtain j where j: "j < length (threads ?c)" "crit (threads ?c ! j)"
      by (auto simp add: mutex_def)
    have "step (threads ?c ! j) (shared ?c) \<noteq> None"
      using j(2) by (cases "threads ?c ! j") (simp_all add: object_new_def)
    with j(1) n show ?thesis by auto
  next
    case False
    have "step (threads ?c ! i) (shared ?c) \<noteq> None"
      using assms(5) False
      by (cases "threads ?c ! i") (simp_all add: object_new_def split: option.splits)
    with assms(4) show ?thesis by auto
  qed
qed

text \<open>
  One thread alone, run to its end, does what the call \<open>DatabaseConnection()\<close> of the
  sequential model does.
\<close>

lemma solo_caller_agrees:
  assumes "\<not> cls_lock s"
  shows "\<exists>r. threads (run (replicate 11 0) (start 1 s)) = [Done r]
             \<and> DatabaseConnection no_args s = (Return r, shared (run (replicate 11 0) (start 1 s)))"
proof (cases "cls_instance s")
  case None
  with assms show ?thesis
    by (cases "cls_initialized s")
       (simp_all add: start_def sched_step_def numeral_eq_Suc object_new_def
          is_DatabaseConnection_def heap_get_def update_object_def set_connection_string_def
          set_connected_def DatabaseConnection_def DatabaseConnection_new_def
          DatabaseConnection_init_def)
next
  case (Some a)
  show ?thesis
  proof (cases "is_DatabaseConnection (heap s) a")
    case False
    with Some show ?thesis
      by (simp add: start_def sched_step_def numeral_eq_Suc DatabaseConnection_def
          DatabaseConnection_new_def)
  next
    case True
    then obtain cs cn where ob: "a < length (heap s)" "heap s ! a = DatabaseConnectionObj cs cn"
      by (auto simp add: is_DatabaseConnection_def heap_get_def split: if_splits obj.splits)
    with Some True show ?thesis
      by (cases "cls_initialized s")
         (simp_all add: start_def sched_step_def numeral_eq_Suc update_object_def
            set_connection_string_def set_connected_def DatabaseConnection_def
            DatabaseConnection_new_def DatabaseConnection_init_def)
  qed
qed

subsection \<open>Claims\<close>

text \<open>
  C1. From an empty cell, two calls in sequence (of \<open>DatabaseConnection()\<close>, and of the
  decorated \<open>Logger()\<close>) return the same handle; the first call constructs one object
  (the heap grows by one, and the object is initialised) and the second call leaves the
  whole state as it is, so the construction is observed exactly once.
\<close>

theorem twice_identical:
  "(cls_instance s = None \<and> \<not> cls_lock s \<and> \<not> cls_initialized s \<longrightarrow>
      (\<exists>a s1. DatabaseConnection no_args s = (Return (Some a), s1)
         \<and> DatabaseConnection no_args s1 = (Return (Some a), s1)
         \<and> length (heap s1) = Suc (length (heap s))
         \<and> heap_get (heap s1) a = Some (DatabaseConnectionObj (Some ''localhost:5432'') (Some True))))
   \<and> (instances (closures s ''Logger'') ''Logger'' = None \<and> \<not> lock (closures s ''Logger'') \<longrightarrow>
      (\<exists>a s1. Logger no_args s = (Return a, s1)
         \<and> Logger no_args s1 = (Return a, s1)
         \<and> length (heap s1) = Suc (length (heap s))
         \<and> heap_get (heap s1) a = Some (LoggerObj (Some []))))"
proof (intro conjI impI)
  assume e: "cls_instance s = None \<and> \<not> cls_lock s \<and> \<not> cls_initialized s"
  let ?a = "length (heap s)"
  let ?s1 = "s\<lparr>cls_instance := Some ?a,
       heap := heap s @ [DatabaseConnectionObj (Some ''localhost:5432'') (Some True)],
       cls_initialized := True\<rparr>"
  have 1: "DatabaseConnection no_args s = (Return (Some ?a), ?s1)"
    using e by (simp add: DatabaseConnection_empty)
  have 2: "DatabaseConnection no_args ?s1 = (Return (Some ?a), ?s1)"
    by (rule DatabaseConnection_occupied_init) simp_all
  have 3: "length (heap ?s1) = Suc (length (heap s))" by simp
  have 4: "heap_get (heap ?s1) ?a = Some (DatabaseConnectionObj (Some ''localhost:5432'') (Some True))"
    by (simp add: heap_get_def)
  from 1 2 3 4 show "\<exists>a s1. DatabaseConnection no_args s = (Return (Some a), s1)
         \<and> DatabaseConnection no_args s1 = (Return (Some a), s1)
         \<and> length (heap s1) = Suc (length (heap s))
         \<and> heap_get (heap s1) a = Some (DatabaseConnectionObj (Some ''localhost:5432'') (Some True))"
    by blast
next
  assume e: "instances (closures s ''Logger'') ''Logger'' = None \<and> \<not> lock (closures s ''Logger'')"
  let ?a = "length (heap s)"
  let ?h = "heap s @ [LoggerObj (Some [])]"
  let ?s1 = "store_instance ''Logger'' ?a (s\<lparr>heap := ?h\<rparr>)"
  have k: "Logger_class no_args (heap s) = (Return ?a, ?h)"
    by (simp add: Logger_class_def object_new_def)
  have 1: "Logger no_args s = (Return ?a, ?s1)"
    unfolding Logger_def singleton_def using e k by (simp add: get_instance_empty_Return)
  have "instances (closures ?s1 ''Logger'') ''Logger'' = Some ?a"
    by (simp add: store_instance_def)
  then have 2: "Logger no_args ?s1 = (Return ?a, ?s1)"
    unfolding Logger_def singleton_def by (rule get_instance_occupied)
  have 3: "length (heap ?s1) = Suc (length (heap s))" by (simp add: store_instance_def)
  have 4: "heap_get (heap ?s1) ?a = Some (LoggerObj (Some []))"
    by (simp add: store_instance_def heap_get_def)
  from 1 2 3 4 show "\<exists>a s1. Logger no_args s = (Return a, s1)
         \<and> Logger no_args s1 = (Return a, s1)
         \<and> length (heap s1) = Suc (length (heap s))
         \<and> heap_get (heap s1) a = Some (LoggerObj (Some []))"
    by blast
qed

theorem twice_identical_witness:
  "(\<exists>a s1. DatabaseConnection no_args initial = (Return (Some a), s1)
         \<and> DatabaseConnection no_args s1 = (Return (Some a), s1)
         \<and> length (heap s1) = Suc (length (heap initial))
         \<and> heap_get (heap s1) a = Some (DatabaseConnectionObj (Some ''localhost:5432'') (Some True)))
   \<and> (\<exists>a s1. Logger no_args initial = (Return a, s1)
         \<and> Logger no_args s1 = (Return a, s1)
         \<and> length (heap s1) = Suc (length (heap initial))
         \<and> heap_get (heap s1) a = Some (LoggerObj (Some [])))"
  using twice_identical [of initial] by (simp add: initial_def)

text \<open>
  C2 fails for \<open>DatabaseConnection\<close>. Two threads call \<open>DatabaseConnection()\<close> on the
  empty cell. Thread 0 runs \<open>__new__\<close>, which allocates and stores the instance, and the
  test of line 29, where \<open>_initialized\<close> is still \<open>False\<close>; thread 1 then runs the fast
  path of \<open>__new__\<close> and the same test, with the same outcome, since \<open>_initialized\<close> is
  read and written outside the lock. Both threads are then before line 30 and both run
  lines 30 to 32: the two callers get the same object, allocated once, but the body of its
  constructor \<open>__init__\<close> is executed twice.
\<close>

theorem two_racing_callers_initialise_twice:
  "threads (run (take 11 racing_schedule) (start 2 empty_db))
       = [Init_connection_string 0, Init_connection_string 0]
   \<and> threads (run racing_schedule (start 2 empty_db)) = [Done (Some 0), Done (Some 0)]
   \<and> executed (run racing_schedule (start 2 empty_db))
       = [(0, New_check), (0, New_acquire), (0, New_recheck), (0, New_alloc), (0, New_store 0),
          (0, New_release), (0, New_return), (0, Init_check 0),
          (1, New_check), (1, New_return), (1, Init_check 0),
          (0, Init_connection_string 0), (0, Init_connected 0), (0, Init_initialized 0),
          (1, Init_connection_string 0), (1, Init_connected 0), (1, Init_initialized 0)]
   \<and> times_executed New_alloc (run racing_schedule (start 2 empty_db)) = 1
   \<and> times_executed (Init_connection_string 0) (run racing_schedule (start 2 empty_db)) = 2
   \<and> times_executed (Init_connected 0) (run racing_schedule (start 2 empty_db)) = 2
   \<and> times_executed (Init_initialized 0) (run racing_schedule (start 2 empty_db)) = 2"
  by (simp add: racing_schedule_def start_def empty_db_def sched_step_def times_executed_def
      object_new_def is_DatabaseConnection_def heap_get_def update_object_def
      set_connection_string_def set_connected_def numeral_eq_Suc)

lemma get_instance_keeps:
  "instances (closures s c') c' = Some a \<Longrightarrow>
   instances (closures (snd (get_instance c k as s)) c') c' = Some a"
  by (auto simp add: get_instance_def return_instance_def set_lock_def store_instance_def Let_def
      split: option.splits result.splits prod.splits)

lemma get_instance_cls_instance:
  "cls_instance (snd (get_instance c k as s)) = cls_instance s"
  by (auto simp add: get_instance_def return_instance_def set_lock_def store_instance_def Let_def
      split: option.splits result.splits prod.splits)

lemma DatabaseConnection_closures:
  "closures (snd (DatabaseConnection as s)) = closures s"
  by (auto simp add: DatabaseConnection_def DatabaseConnection_new_def object_new_def Let_def
      DatabaseConnection_init_def split: option.splits result.splits prod.splits)

lemma exec_op_keeps:
  "(cls_instance s = Some a \<longrightarrow> cls_instance (exec_op classes x s) = Some a)
   \<and> (instances (closures s c) c = Some b \<longrightarrow> instances (closures (exec_op classes x s) c) c = Some b)"
proof (cases x)
  case (Call_DatabaseConnection as)
  then show ?thesis
    by (simp add: DatabaseConnection_occupied(2) DatabaseConnection_closures)
next
  case (Call_decorated c' as)
  then show ?thesis
    by (simp add: singleton_def get_instance_keeps get_instance_cls_instance)
next
  case (Call_execute_query a q)
  then show ?thesis by (simp add: execute_query_def)
next
  case (Call_get_connection_info a)
  then show ?thesis
    by (simp add: get_connection_info_def split: option.splits obj.splits)
next
  case (Call_log a m)
  then show ?thesis
    by (simp add: log_def split: option.splits obj.splits)
next
  case (Call_get_logs a)
  then show ?thesis
    by (simp add: get_logs_def split: option.splits obj.splits)
qed

text \<open>
  C3. Whatever sequence of calls into the module is made (constructor calls with any
  arguments, and the methods), a cell that is occupied stays occupied by the same instance:
  neither \<open>DatabaseConnection._instance\<close> nor the entry of a decorated class in its
  \<open>instances\<close> dictionary is ever removed or replaced.
\<close>

theorem occupied_is_terminal:
  "(cls_instance s = Some a \<longrightarrow> cls_instance (exec_ops classes xs s) = Some a)
   \<and> (instances (closures s c) c = Some b \<longrightarrow> instances (closures (exec_ops classes xs s) c) c = Some b)"
proof (induction xs arbitrary: s)
  case Nil
  show ?case by simp
next
  case (Cons x xs)
  show ?case using exec_op_keeps [of s a classes x c b] Cons.IH [of "exec_op classes x s"]
    by simp
qed

theorem occupied_is_terminal_witness:
  "cls_instance loaded = Some 0
   \<and> instances (closures loaded ''Logger'') ''Logger'' = Some 1
   \<and> cls_instance (exec_ops (\<lambda>_. Logger_class)
        [Call_DatabaseConnection ([PyInt 1], []), Call_decorated ''Logger'' ([], [(''level'', PyInt 2)]),
         Call_log 1 ''m'', Call_DatabaseConnection no_args] loaded) = Some 0
   \<and> instances (closures (exec_ops (\<lambda>_. Logger_class)
        [Call_DatabaseConnection ([PyInt 1], []), Call_decorated ''Logger'' ([], [(''level'', PyInt 2)]),
         Call_log 1 ''m'', Call_DatabaseConnection no_args] loaded) ''Logger'') ''Logger'' = Some 1"
  using occupied_is_terminal [of loaded 0 "\<lambda>_. Logger_class"
      "[Call_DatabaseConnection ([PyInt 1], []), Call_decorated ''Logger'' ([], [(''level'', PyInt 2)]),
         Call_log 1 ''m'', Call_DatabaseConnection no_args]" "''Logger''" 1]
  by (simp add: loaded_eq)

text \<open>
  C4. When the constructor of a decorated class raises on an empty cell, \<open>get_instance\<close>
  raises the same error, the cell is still empty and the lock is free again (only the heap
  is as the constructor left it), and a later call whose constructor succeeds constructs and
  caches the instance, the state being exactly the constructor's heap with the instance
  stored. For \<open>Logger\<close>: a call with arguments raises TypeError, leaving behind only the
  object that \<open>__init__\<close> was refused on, and the call \<open>Logger()\<close> after it constructs
  and caches a new object whose \<open>logs\<close> is the empty list. \<open>DatabaseConnection\<close> raises
  only when it is given arguments, before anything is touched, and the call without
  arguments after it returns a new object with \<open>connection_string\<close> \<open>"localhost:5432"\<close>
  and \<open>connected\<close> \<open>True\<close>, stored in \<open>_instance\<close>, with \<open>_initialized\<close> set.
\<close>

theorem constructor_failure_retry:
  "(instances (closures s c) c = None \<and> \<not> lock (closures s c) \<and> k as (heap s) = (Raise e, h) \<longrightarrow>
      get_instance c k as s = (Raise e, s\<lparr>heap := h\<rparr>)
      \<and> instances (closures (s\<lparr>heap := h\<rparr>) c) c = None
      \<and> \<not> lock (closures (s\<lparr>heap := h\<rparr>) c)
      \<and> (\<forall>as' a h'. k as' h = (Return a, h') \<longrightarrow>
            get_instance c k as' (s\<lparr>heap := h\<rparr>) = (Return a, store_instance c a (s\<lparr>heap := h'\<rparr>))
            \<and> instances (closures (store_instance c a (s\<lparr>heap := h'\<rparr>)) c) c = Some a))
   \<and> (instances (closures s ''Logger'') ''Logger'' = None \<and> \<not> lock (closures s ''Logger'')
        \<and> as \<noteq> no_args \<longrightarrow>
      Logger as s = (Raise TypeError, s\<lparr>heap := heap s @ [LoggerObj None]\<rparr>)
      \<and> Logger no_args (s\<lparr>heap := heap s @ [LoggerObj None]\<rparr>)
          = (Return (Suc (length (heap s))),
             store_instance ''Logger'' (Suc (length (heap s)))
               (s\<lparr>heap := heap s @ [LoggerObj None, LoggerObj (Some [])]\<rparr>)))
   \<and> (cls_instance s = None \<and> \<not> cls_lock s \<and> \<not> cls_initialized s \<and> as \<noteq> no_args \<longrightarrow>
      DatabaseConnection as s = (Raise TypeError, s)
      \<and> DatabaseConnection no_args s
          = (Return (Some (length (heap s))),
             s\<lparr>cls_instance := Some (length (heap s)),
               heap := heap s @ [DatabaseConnectionObj (Some ''localhost:5432'') (Some True)],
               cls_initialized := True\<rparr>))"
proof (intro conjI impI allI)
  assume a: "instances (closures s c) c = None \<and> \<not> lock (closures s c) \<and> k as (heap s) = (Raise e, h)"
  then show "get_instance c k as s = (Raise e, s\<lparr>heap := h\<rparr>)"
    by (simp add: get_instance_empty_Raise)
  from a show "instances (closures (s\<lparr>heap := h\<rparr>) c) c = None" by simp
  from a show "\<not> lock (closures (s\<lparr>heap := h\<rparr>) c)" by simp
  fix as' a' h'
  assume r: "k as' h = (Return a', h')"
  show "get_instance c k as' (s\<lparr>heap := h\<rparr>) = (Return a', store_instance c a' (s\<lparr>heap := h'\<rparr>))"
    using a r get_instance_empty_Return [of "s\<lparr>heap := h\<rparr>" c k as' a' h'] by simp
  show "instances (closures (store_instance c a' (s\<lparr>heap := h'\<rparr>)) c) c = Some a'"
    by (simp add: store_instance_simps)
next
  assume a: "instances (closures s ''Logger'') ''Logger'' = None \<and> \<not> lock (closures s ''Logger'')
        \<and> as \<noteq> no_args"
  let ?s1 = "s\<lparr>heap := heap s @ [LoggerObj None]\<rparr>"
  have k: "Logger_class as (heap s) = (Raise TypeError, heap s @ [LoggerObj None])"
    using a by (simp add: Logger_class_def object_new_def)
  show "Logger as s = (Raise TypeError, ?s1)"
    unfolding Logger_def singleton_def using a k by (simp add: get_instance_empty_Raise)
  have k2: "Logger_class no_args (heap ?s1)
      = (Return (Suc (length (heap s))), heap s @ [LoggerObj None, LoggerObj (Some [])])"
  proof -
    have "(heap s @ [LoggerObj None, LoggerObj None])[Suc (length (heap s)) := LoggerObj (Some [])]
        = heap s @ [LoggerObj None, LoggerObj (Some [])]"
      by (simp add: list_update_append)
    then show ?thesis by (simp add: Logger_class_def object_new_def)
  qed
  show "Logger no_args ?s1
          = (Return (Suc (length (heap s))),
             store_instance ''Logger'' (Suc (length (heap s)))
               (s\<lparr>heap := heap s @ [LoggerObj None, LoggerObj (Some [])]\<rparr>))"
    unfolding Logger_def singleton_def
    using a k2 get_instance_empty_Return [of ?s1 "''Logger''" Logger_class no_args
        "Suc (length (heap s))" "heap s @ [LoggerObj None, LoggerObj (Some [])]"]
    by simp
next
  assume a: "cls_instance s = None \<and> \<not> cls_lock s \<and> \<not> cls_initialized s \<and> as \<noteq> no_args"
  then show "DatabaseConnection as s = (Raise TypeError, s)"
    by (simp add: DatabaseConnection_def)
  from a show "DatabaseConnection no_args s
          = (Return (Some (length (heap s))),
             s\<lparr>cls_instance := Some (length (heap s)),
               heap := heap s @ [DatabaseConnectionObj (Some ''localhost:5432'') (Some True)],
               cls_initialized := True\<rparr>)"
    by (simp add: DatabaseConnection_empty)
qed

theorem constructor_failure_retry_witness:
  "Logger ([PyInt 1], []) initial = (Raise TypeError, initial\<lparr>heap := [LoggerObj None]\<rparr>)
   \<and> Logger no_args (initial\<lparr>heap := [LoggerObj None]\<rparr>)
       = (Return 1, store_instance ''Logger'' 1 (initial\<lparr>heap := [LoggerObj None, LoggerObj (Some [])]\<rparr>))
   \<and> DatabaseConnection ([PyInt 1], []) initial = (Raise TypeError, initial)
   \<and> DatabaseConnection no_args initial
       = (Return (Some 0),
          initial\<lparr>cls_instance := Some 0,
            heap := [DatabaseConnectionObj (Some ''localhost:5432'') (Some True)],
            cls_initialized := True\<rparr>)"
  using constructor_failure_retry [of initial "''Logger''" Logger_class "([PyInt 1], [])" TypeError "[LoggerObj None]"]
  by (simp add: initial_def Logger_def singleton_def Logger_class_def object_new_def no_args_def)

text \<open>
  C5, as stated, fails for \<open>DatabaseConnection\<close>: after a first successful call, a call
  with an argument raises TypeError instead of returning the instance, because
  \<open>__new__(cls)\<close> accepts no argument.
\<close>

theorem later_arguments_counterexample:
  "fst (DatabaseConnection no_args initial) = Return (Some 0)
   \<and> fst (DatabaseConnection ([PyInt 1], []) (snd (DatabaseConnection no_args initial))) = Raise TypeError"
  by (simp add: DatabaseConnection_def DatabaseConnection_new_def object_new_def
      is_DatabaseConnection_def heap_get_def DatabaseConnection_init_def initial_def no_args_def)

text \<open>
  C5, amended. Once the cell of a decorated class is occupied, a call with any arguments
  returns the original instance and leaves the state as it is. Once the
  \<open>DatabaseConnection\<close> cell is occupied, a call without arguments returns the original
  instance and a call with arguments raises TypeError; either way the cell keeps the
  original instance, no object is created, and the state is unchanged when arguments were
  given or the instance was already initialised.
\<close>

theorem later_arguments:
  "(instances (closures s c) c = Some a \<longrightarrow> get_instance c k as s = (Return a, s))
   \<and> (cls_instance s = Some a \<longrightarrow>
        fst (DatabaseConnection as s) = (if as = no_args then Return (Some a) else Raise TypeError)
        \<and> cls_instance (snd (DatabaseConnection as s)) = Some a
        \<and> length (heap (snd (DatabaseConnection as s))) = length (heap s)
        \<and> (as \<noteq> no_args \<or> cls_initialized s \<longrightarrow> snd (DatabaseConnection as s) = s))"
proof (intro conjI impI)
  assume "instances (closures s c) c = Some a"
  then show "get_instance c k as s = (Return a, s)" by (rule get_instance_occupied)
next
  assume o: "cls_instance s = Some a"
  show "fst (DatabaseConnection as s) = (if as = no_args then Return (Some a) else Raise TypeError)"
    using o by (rule DatabaseConnection_occupied(1))
  show "cls_instance (snd (DatabaseConnection as s)) = Some a"
    using o by (rule DatabaseConnection_occupied(2))
  show "length (heap (snd (DatabaseConnection as s))) = length (heap s)"
    using o by (auto simp add: DatabaseConnection_def DatabaseConnection_new_def
        DatabaseConnection_init_def)
  assume "as \<noteq> no_args \<or> cls_initialized s"
  then show "snd (DatabaseConnection as s) = s"
    using o by (auto simp add: DatabaseConnection_def DatabaseConnection_new_def
        DatabaseConnection_init_def)
qed

theorem later_arguments_witness:
  "get_instance ''Logger'' Logger_class ([PyInt 7], []) loaded = (Return 1, loaded)
   \<and> DatabaseConnection ([PyInt 7], []) loaded = (Raise TypeError, loaded)
   \<and> DatabaseConnection no_args loaded = (Return (Some 0), loaded)"
  using later_arguments [of loaded "''Logger''" 1 Logger_class "([PyInt 7], [])"]
    later_arguments [of loaded "''Logger''" 0 Logger_class "([PyInt 7], [])"]
    later_arguments [of loaded "''Logger''" 0 Logger_class no_args]
  by (simp add: loaded_eq no_args_def prod_eq_iff)

lemma repeat_calls_occupied:
  "cls_instance s = Some a \<Longrightarrow> cls_initialized s \<Longrightarrow>
   repeat_calls n s = (replicate n (Return (Some a)), s)"
  by (induction n) (simp_all add: DatabaseConnection_occupied_init)

text \<open>
  Calls made one after the other: after any positive number of calls
  \<open>DatabaseConnection()\<close> from the empty cell, every call has returned the same handle, the
  state is the one the first call left (one object constructed, nothing after it), and the
  handle's \<open>connection_string\<close> is \<open>"localhost:5432"\<close>.
\<close>

theorem calls_construct_once:
  assumes "cls_instance s = None" "\<not> cls_lock s" "\<not> cls_initialized s" "0 < n"
  shows "\<exists>a s'. repeat_calls n s = (replicate n (Return (Some a)), s')
           \<and> length (heap s') = Suc (length (heap s))
           \<and> s' = snd (DatabaseConnection no_args s)
           \<and> map_option connection_string (heap_get (heap s') a) = Some (Some ''localhost:5432'')
           \<and> get_connection_info a s' = (Return ''Connected to: localhost:5432, Status: True'', s')"
proof -
  obtain m where n: "n = Suc m" using assms(4) by (cases n) auto
  let ?a = "length (heap s)"
  let ?s1 = "s\<lparr>cls_instance := Some ?a,
       heap := heap s @ [DatabaseConnectionObj (Some ''localhost:5432'') (Some True)],
       cls_initialized := True\<rparr>"
  have 1: "DatabaseConnection no_args s = (Return (Some ?a), ?s1)"
    using assms by (simp add: DatabaseConnection_empty)
  have 2: "repeat_calls m ?s1 = (replicate m (Return (Some ?a)), ?s1)"
    by (rule repeat_calls_occupied) simp_all
  have 3: "repeat_calls n s = (replicate n (Return (Some ?a)), ?s1)"
    using 1 2 n by simp
  have 4: "get_connection_info ?a ?s1 = (Return ''Connected to: localhost:5432, Status: True'', ?s1)"
    by (simp add: get_connection_info_def heap_get_def str_bool_def)
  have 5: "map_option connection_string (heap_get (heap ?s1) ?a) = Some (Some ''localhost:5432'')"
    by (simp add: heap_get_def)
  show ?thesis using 1 3 4 5 by auto
qed

theorem calls_construct_once_witness:
  "\<exists>a s'. repeat_calls 50 initial = (replicate 50 (Return (Some a)), s')
           \<and> length (heap s') = Suc (length (heap initial))
           \<and> s' = snd (DatabaseConnection no_args initial)
           \<and> map_option connection_string (heap_get (heap s') a) = Some (Some ''localhost:5432'')
           \<and> get_connection_info a s' = (Return ''Connected to: localhost:5432, Status: True'', s')"
  using calls_construct_once [of initial 50] by (simp add: initial_def)

text \<open>
  C6 fails in the scenario it names, 50 concurrent calls \<open>DatabaseConnection()\<close> on the
  empty cell. Thread 0 runs \<open>__new__\<close> and the test of line 29; each of the threads 1 to
  49 runs the fast path of \<open>__new__\<close> and the test of line 29, which still finds
  \<open>_initialized\<close> false; then every thread runs lines 30 to 32. All 50 calls return the
  same handle, one object has been allocated, and its \<open>connection_string\<close> is
  \<open>"localhost:5432"\<close>, but the construction side effect, the body of \<open>__init__\<close>, has
  occurred 50 times.
\<close>

theorem fifty_racing_callers_initialise_fifty_times:
  "threads (run (all_racing_schedule 50) (start 50 empty_db)) = replicate 50 (Done (Some 0))
   \<and> times_executed New_alloc (run (all_racing_schedule 50) (start 50 empty_db)) = 1
   \<and> times_executed (Init_connection_string 0) (run (all_racing_schedule 50) (start 50 empty_db)) = 50
   \<and> times_executed (Init_connected 0) (run (all_racing_schedule 50) (start 50 empty_db)) = 50
   \<and> times_executed (Init_initialized 0) (run (all_racing_schedule 50) (start 50 empty_db)) = 50
   \<and> heap (shared (run (all_racing_schedule 50) (start 50 empty_db)))
       = [DatabaseConnectionObj (Some ''localhost:5432'') (Some True)]
   \<and> fst (get_connection_info 0 (shared (run (all_racing_schedule 50) (start 50 empty_db))))
       = Return ''Connected to: localhost:5432, Status: True''"
  by code_simp

lemma get_instance_frame:
  "c' \<noteq> c \<Longrightarrow> closures (snd (get_instance c k as s)) c' = closures s c'"
  by (auto simp add: get_instance_def return_instance_def set_lock_def store_instance_def Let_def
      split: option.splits result.splits prod.splits)

lemma get_instance_db_frame:
  "cls_instance (snd (get_instance c k as s)) = cls_instance s
   \<and> cls_lock (snd (get_instance c k as s)) = cls_lock s
   \<and> cls_initialized (snd (get_instance c k as s)) = cls_initialized s"
  by (auto simp add: get_instance_def return_instance_def set_lock_def store_instance_def Let_def
      split: option.splits result.splits prod.splits)

text \<open>
  C7. For two distinct decorated classes, a call for the one, whatever its outcome (also
  when it blocks, holding its lock), leaves the closure of the other as it was; and the
  other, if its cell is empty and its own lock free, then constructs its own instance,
  the one its own constructor returns, without touching the closure of the first.
\<close>

theorem per_class_independence:
  assumes "c \<noteq> c'"
  shows "closures (snd (get_instance c k as s)) c' = closures s c'
    \<and> (instances (closures s c') c' = None \<and> \<not> lock (closures s c')
          \<and> k' as' (heap (snd (get_instance c k as s))) = (Return a', h') \<longrightarrow>
          fst (get_instance c' k' as' (snd (get_instance c k as s))) = Return a'
          \<and> instances (closures (snd (get_instance c' k' as' (snd (get_instance c k as s)))) c') c' = Some a'
          \<and> closures (snd (get_instance c' k' as' (snd (get_instance c k as s)))) c
              = closures (snd (get_instance c k as s)) c)"
proof (intro conjI impI)
  let ?s1 = "snd (get_instance c k as s)"
  show f: "closures ?s1 c' = closures s c'"
    using assms by (simp add: get_instance_frame)
  assume a: "instances (closures s c') c' = None \<and> \<not> lock (closures s c')
          \<and> k' as' (heap ?s1) = (Return a', h')"
  then have g: "get_instance c' k' as' ?s1 = (Return a', store_instance c' a' (?s1\<lparr>heap := h'\<rparr>))"
    using f by (intro get_instance_empty_Return) simp_all
  show "fst (get_instance c' k' as' ?s1) = Return a'" by (simp add: g)
  show "instances (closures (snd (get_instance c' k' as' ?s1)) c') c' = Some a'"
    by (simp add: g store_instance_simps)
  show "closures (snd (get_instance c' k' as' ?s1)) c = closures ?s1 c"
    using assms by (simp add: g store_instance_simps)
qed

theorem per_class_independence_witness:
  "''Logger'' \<noteq> ''Config''
   \<and> fst (get_instance ''Logger'' Logger_class no_args initial) = Return 0
   \<and> fst (get_instance ''Config'' Logger_class no_args
            (snd (get_instance ''Logger'' Logger_class no_args initial))) = Return 1
   \<and> closures (snd (get_instance ''Logger'' Logger_class no_args initial)) ''Config''
       = closures initial ''Config''"
proof -
  have n: "''Logger'' \<noteq> ''Config''" by simp
  have 1: "get_instance ''Logger'' Logger_class no_args initial
     = (Return 0, store_instance ''Logger'' 0 (initial\<lparr>heap := [LoggerObj (Some [])]\<rparr>))"
    by (rule get_instance_empty_Return) (simp_all add: initial_def Logger_class_def object_new_def)
  have 2: "Logger_class no_args [LoggerObj (Some [])] = (Return 1, [LoggerObj (Some []), LoggerObj (Some [])])"
    by (simp add: Logger_class_def object_new_def)
  show ?thesis
    using per_class_independence [OF n, where k = Logger_class and as = no_args and s = initial
        and k' = Logger_class and as' = no_args and a' = 1
        and h' = "[LoggerObj (Some []), LoggerObj (Some [])]"] n 2
    by (simp add: 1 store_instance_simps) (simp add: initial_def)
qed

lemma log_via_occupied:
  assumes "instances (closures s ''Logger'') ''Logger'' = Some h"
    and "heap_get (heap s) h = Some (LoggerObj (Some l))"
  shows "instances (closures (log_via ams s) ''Logger'') ''Logger'' = Some h
       \<and> heap_get (heap (log_via ams s)) h = Some (LoggerObj (Some (l @ map snd ams)))"
  using assms
proof (induction ams arbitrary: s l)
  case Nil
  then show ?case by simp
next
  case (Cons am ams)
  obtain as m where am: "am = (as, m)" by (cases am)
  have g: "Logger as s = (Return h, s)"
    unfolding Logger_def singleton_def using Cons.prems(1) by (rule get_instance_occupied)
  let ?s1 = "s\<lparr>heap := (heap s)[h := LoggerObj (Some (l @ [m]))]\<rparr>"
  have lg: "log h m s = (Return (), ?s1)"
    using Cons.prems(2) by (simp add: log_def)
  have i: "instances (closures ?s1 ''Logger'') ''Logger'' = Some h"
    using Cons.prems(1) by simp
  have hg: "heap_get (heap ?s1) h = Some (LoggerObj (Some (l @ [m])))"
    using Cons.prems(2) by (simp add: heap_get_def split: if_splits)
  show ?case
    using Cons.IH [OF i hg] by (simp add: am g lg)
qed

text \<open>
  C8. From an empty Logger cell, let a first call return the handle \<open>h\<close>. Whatever
  messages are then logged, each through a handle obtained from \<open>Logger(...)\<close> with any
  arguments, every such handle is \<open>h\<close>, and \<open>get_logs\<close> on it returns exactly the
  messages logged, in the order of the calls.
\<close>

theorem logs_shared_in_order:
  assumes "instances (closures s ''Logger'') ''Logger'' = None" "\<not> lock (closures s ''Logger'')"
  shows "\<exists>h s0. Logger no_args s = (Return h, s0)
     \<and> (\<forall>ams as. Logger as (log_via ams s0) = (Return h, log_via ams s0)
           \<and> get_logs h (log_via ams s0) = (Return (map snd ams), log_via ams s0))"
proof -
  let ?h = "length (heap s)"
  let ?s0 = "store_instance ''Logger'' ?h (s\<lparr>heap := heap s @ [LoggerObj (Some [])]\<rparr>)"
  have k: "Logger_class no_args (heap s) = (Return ?h, heap s @ [LoggerObj (Some [])])"
    by (simp add: Logger_class_def object_new_def)
  have 1: "Logger no_args s = (Return ?h, ?s0)"
    unfolding Logger_def singleton_def using assms k by (simp add: get_instance_empty_Return)
  have i: "instances (closures ?s0 ''Logger'') ''Logger'' = Some ?h"
    by (simp add: store_instance_simps)
  have hg: "heap_get (heap ?s0) ?h = Some (LoggerObj (Some []))"
    by (simp add: store_instance_simps heap_get_def)
  have "Logger as (log_via ams ?s0) = (Return ?h, log_via ams ?s0)
      \<and> get_logs ?h (log_via ams ?s0) = (Return (map snd ams), log_via ams ?s0)" for ams as
    using log_via_occupied [OF i hg, of ams]
    by (simp add: Logger_def singleton_def get_instance_occupied get_logs_def)
  with 1 show ?thesis by blast
qed

theorem logs_shared_in_order_witness:
  "\<exists>h s0. Logger no_args initial = (Return h, s0)
     \<and> (\<forall>ams as. Logger as (log_via ams s0) = (Return h, log_via ams s0)
           \<and> get_logs h (log_via ams s0) = (Return (map snd ams), log_via ams s0))"
  using logs_shared_in_order [of initial] by (simp add: initial_def)

text \<open>
  C9. \<open>execute_query\<close> returns \<open>"Executing query: "\<close> followed by the query and
  leaves the state, hence the cell and every field of the instance, unchanged.
\<close>

theorem execute_query_pure:
  "execute_query self query s = (Return (''Executing query: '' @ query), s)"
  by (simp add: execute_query_def)

text \<open>
  C10. A call of the decorated Logger with any argument raises TypeError when the cell is
  empty, leaving it empty (the object allocated before \<open>__init__\<close> refused the argument is
  referenced by nobody), and returns the cached instance, the state unchanged, when the cell
  is occupied.
\<close>

theorem Logger_arguments:
  assumes "as \<noteq> no_args"
  shows "(instances (closures s ''Logger'') ''Logger'' = None \<and> \<not> lock (closures s ''Logger'') \<longrightarrow>
           Logger as s = (Raise TypeError, s\<lparr>heap := heap s @ [LoggerObj None]\<rparr>)
           \<and> instances (closures (snd (Logger as s)) ''Logger'') ''Logger'' = None)
         \<and> (instances (closures s ''Logger'') ''Logger'' = Some a \<longrightarrow> Logger as s = (Return a, s))"
proof (intro conjI impI)
  assume e: "instances (closures s ''Logger'') ''Logger'' = None \<and> \<not> lock (closures s ''Logger'')"
  have k: "Logger_class as (heap s) = (Raise TypeError, heap s @ [LoggerObj None])"
    using assms by (simp add: Logger_class_def object_new_def)
  show 1: "Logger as s = (Raise TypeError, s\<lparr>heap := heap s @ [LoggerObj None]\<rparr>)"
    unfolding Logger_def singleton_def using e k by (simp add: get_instance_empty_Raise)
  show "instances (closures (snd (Logger as s)) ''Logger'') ''Logger'' = None"
    using e by (simp add: 1)
next
  assume "instances (closures s ''Logger'') ''Logger'' = Some a"
  then show "Logger as s = (Return a, s)"
    unfolding Logger_def singleton_def by (rule get_instance_occupied)
qed

theorem Logger_arguments_witness:
  "([PyInt 1], []) \<noteq> no_args
   \<and> Logger ([PyInt 1], []) initial = (Raise TypeError, initial\<lparr>heap := [LoggerObj None]\<rparr>)
   \<and> Logger ([PyInt 1], []) (snd (Logger no_args initial)) = (Return 0, snd (Logger no_args initial))"
proof -
  have n: "([PyInt 1], []) \<noteq> no_args" by (simp add: no_args_def)
  have 1: "Logger no_args initial = (Return 0, store_instance ''Logger'' 0 (initial\<lparr>heap := [LoggerObj (Some [])]\<rparr>))"
    unfolding Logger_def singleton_def
    by (rule get_instance_empty_Return) (simp_all add: initial_def Logger_class_def object_new_def)
  show ?thesis
    using Logger_arguments [OF n, of initial 0]
      Logger_arguments [OF n, of "snd (Logger no_args initial)" 0] n
    by (simp add: 1 store_instance_simps) (simp add: initial_def)
qed

end
